theory Spec2Isabelle
  imports Main "HOL-Library.Signed_Division"
begin

section \<open>The terminal user interface of ewig (src/ewig/tui.cpp)\<close>

text \<open>
  A shallow embedding of the rendering and key dispatch code of \<^verbatim>\<open>tui.cpp\<close>.
  The C++ type \<^verbatim>\<open>index\<close> and the coordinates are 32-bit \<^verbatim>\<open>int\<close>: the model keeps
  their values in \<^typ>\<open>int\<close> and writes out the wrap-around (\<open>wrap32\<close>) of the sums
  and differences that can leave the range of \<^verbatim>\<open>int\<close> for coordinates and sizes that
  are not negative: those of \<^verbatim>\<open>display_line_fill\<close>, of the range of lines of
  \<^verbatim>\<open>draw_text\<close> and of \<^verbatim>\<open>draw_text_cursor\<close>. The body of the loop of \<^verbatim>\<open>draw_text\<close>
  subtracts such coordinates from one another, which stays in the range, and counts the
  rows of the screen. A wide character
  (\<^verbatim>\<open>wchar_t\<close>) is its code point; a line
  (\<^verbatim>\<open>immer::flex_vector<wchar_t>\<close>) and a \<^verbatim>\<open>std::wstring\<close> are lists of them.
\<close>

subsection \<open>Data\<close>

type_synonym wchar = int
type_synonym line = "wchar list"
type_synonym wstring = "wchar list"

text \<open>The value a 32-bit signed integer takes for the mathematical result \<open>x\<close>.\<close>

definition wrap32 :: "int \<Rightarrow> int" where
  "wrap32 x = (x + 2147483648) mod 4294967296 - 2147483648"

definition tab :: wchar where
  "tab = 9"

definition space :: wchar where
  "space = 32"

text \<open>
  Modelled from the spec: \<^verbatim>\<open>tab_width\<close> is declared in a header that is not part of
  the sources at hand; the spec fixes it to 8. The line renderer below takes the tab
  width as its first argument, so that its theorems hold for any positive width.
\<close>

definition tab_width :: int where
  "tab_width = 8"

subsection \<open>The line renderer: \<^verbatim>\<open>display_line_fill\<close>\<close>

text \<open>
  The loop of \<^verbatim>\<open>display_line_fill\<close> (lines 89 to 103), with the loop variable
  \<^verbatim>\<open>cur_col\<close> and the output string \<^verbatim>\<open>str\<close> as explicit state. C++'s \<^verbatim>\<open>%\<close>
  truncates, which is \<open>smod\<close>; \<^verbatim>\<open>std::fill_n\<close> with a count that is not positive
  writes nothing, which is \<open>replicate (nat to_fill)\<close>; \<^verbatim>\<open>(index)str.size()\<close> is the
  length as a 32-bit value.
\<close>

fun display_line_loop :: "int \<Rightarrow> line \<Rightarrow> int \<Rightarrow> int \<Rightarrow> int \<Rightarrow> wstring \<Rightarrow> wstring" where
  "display_line_loop tw [] first_col num_col cur_col str = str"
| "display_line_loop tw (c # ln) first_col num_col cur_col str =
    (if num_col = wrap32 (int (length str)) then str
     else if c = tab then
       (let next_col = wrap32 (wrap32 (cur_col + tw) - (cur_col smod tw));
            to_fill = wrap32 (min next_col (wrap32 (first_col + num_col)) - max cur_col first_col)
        in display_line_loop tw ln first_col num_col next_col
             (str @ replicate (nat to_fill) space))
     else if cur_col \<ge> first_col then
       display_line_loop tw ln first_col num_col (wrap32 (cur_col + 1)) (str @ [c])
     else
       display_line_loop tw ln first_col num_col (wrap32 (cur_col + 1)) str)"

definition display_line_fill :: "int \<Rightarrow> line \<Rightarrow> int \<Rightarrow> int \<Rightarrow> wstring \<Rightarrow> wstring" where
  "display_line_fill tw ln first_col num_col str =
     display_line_loop tw ln first_col num_col 0 str"

text \<open>
  The same loop on integers without a bound, the reference of the proofs: the two agree
  as long as no sum of the code leaves the range of \<^verbatim>\<open>int\<close>.
\<close>

fun unbounded_loop :: "int \<Rightarrow> line \<Rightarrow> int \<Rightarrow> int \<Rightarrow> int \<Rightarrow> wstring \<Rightarrow> wstring" where
  "unbounded_loop tw [] first_col num_col cur_col str = str"
| "unbounded_loop tw (c # ln) first_col num_col cur_col str =
    (if num_col = int (length str) then str
     else if c = tab then
       (let next_col = cur_col + tw - (cur_col smod tw);
            to_fill = min next_col (first_col + num_col) - max cur_col first_col
        in unbounded_loop tw ln first_col num_col next_col
             (str @ replicate (nat to_fill) space))
     else if cur_col \<ge> first_col then
       unbounded_loop tw ln first_col num_col (cur_col + 1) (str @ [c])
     else
       unbounded_loop tw ln first_col num_col (cur_col + 1) str)"

text \<open>
  The specification's reading of a line, for comparison with the code: every tab is
  replaced by the blanks that lead to the next multiple of the tab width, counted from
  the column \<open>c\<close> the line has reached; every other character takes one column.
\<close>

definition next_tab_stop :: "int \<Rightarrow> int \<Rightarrow> int" where
  "next_tab_stop tw c = (c div tw + 1) * tw"

fun expand_tabs :: "int \<Rightarrow> int \<Rightarrow> line \<Rightarrow> wstring" where
  "expand_tabs tw c [] = []"
| "expand_tabs tw c (x # xs) =
    (if x = tab
     then replicate (nat (next_tab_stop tw c - c)) space @ expand_tabs tw (next_tab_stop tw c) xs
     else x # expand_tabs tw (c + 1) xs)"

subsection \<open>Coordinates, buffers and the application state\<close>

text \<open>
  The declarations of \<^verbatim>\<open>coord\<close>, \<^verbatim>\<open>file_buffer\<close>, \<^verbatim>\<open>message\<close> and \<^verbatim>\<open>app_state\<close>
  are in headers that are not part of the sources at hand. The records below have the
  fields that \<^verbatim>\<open>tui.cpp\<close> reads, under the names it reads them by; \<^verbatim>\<open>coord\<close> is
  built as \<^verbatim>\<open>{row, col}\<close> in \<^verbatim>\<open>get_editor_size\<close>. An \<^verbatim>\<open>app_state\<close> may have
  further fields.
\<close>

record coord =
  row :: int
  col :: int

record file_buffer =
  content :: "line list"
  file_content :: "line list"
  file_name :: string
  cursor :: coord
  scroll :: coord
  selection_start :: "coord option"

text \<open>The field \<^verbatim>\<open>content\<close> of a message is \<open>content_of\<close> here.\<close>

record message =
  content_of :: string

record app_state =
  buffer :: file_buffer
  messages :: "message list"

subsection \<open>Calls to the terminal library\<close>

text \<open>
  The drawing functions return nothing and act on the terminal through ncurses. The
  model returns the calls they make, in order, with their arguments. A wide string
  argument is the string the pointer designates, that is the characters from the pointer
  to the end of the \<^verbatim>\<open>std::wstring\<close>.
\<close>

datatype color = message_color | selection_color

datatype attr = A_NORMAL | A_REVERSE

datatype printw_arg = Arg_str string | Arg_int int

datatype tcall =
    Erase
  | Refresh
  | Attrset attr
  | Attron color
  | Attroff color
  | Move int int
  | Addnwstr wstring int
  | Addwstr wstring
  | Addstr string
  | Hline wchar int
  | Printw string "printw_arg list"
  | Curs_set int

text \<open>
  Pointer and iterator arithmetic that leaves the object it started in has no defined
  behaviour in C++, and neither has a call of a \<^verbatim>\<open><cctype>\<close> function with an argument
  that is neither \<^verbatim>\<open>EOF\<close> nor a value of \<^verbatim>\<open>unsigned char\<close>. The model makes each a
  result of its own.
\<close>

datatype error = Out_Of_Bounds | Bad_Ctype_Argument

definition and_then :: "error + 'a \<Rightarrow> ('a \<Rightarrow> error + 'b) \<Rightarrow> error + 'b" where
  "and_then r f = (case r of Inl e \<Rightarrow> Inl e | Inr v \<Rightarrow> f v)"

text \<open>
  \<^verbatim>\<open>str.c_str() + off\<close>, read as a string by the callee. The array behind \<^verbatim>\<open>c_str()\<close>
  has \<^verbatim>\<open>str.size() + 1\<close> elements, the last one the terminating zero: an offset from
  0 to \<^verbatim>\<open>str.size()\<close> designates the rest of the string, any other reads outside it.
\<close>

definition c_str_at :: "wstring \<Rightarrow> int \<Rightarrow> error + wstring" where
  "c_str_at str off =
     (if 0 \<le> off \<and> off \<le> int (length str) then Inr (drop (nat off) str)
      else Inl Out_Of_Bounds)"

text \<open>
  The lines from \<^verbatim>\<open>begin(v) + a\<close> up to \<^verbatim>\<open>begin(v) + b\<close>, as \<^verbatim>\<open>immer::for_each\<close>
  visits them. Both iterators have to lie between \<^verbatim>\<open>begin(v)\<close> and \<^verbatim>\<open>end(v)\<close>, the
  first one not after the second.
\<close>

definition iter_range :: "'a list \<Rightarrow> int \<Rightarrow> int \<Rightarrow> error + 'a list" where
  "iter_range v a b =
     (if 0 \<le> a \<and> a \<le> b \<and> b \<le> int (length v)
      then Inr (take (nat (b - a)) (drop (nat a) v))
      else Inl Out_Of_Bounds)"

subsection \<open>Drawing the text: \<^verbatim>\<open>draw_text\<close>\<close>

text \<open>\<^verbatim>\<open>get_editor_size\<close> (lines 73 to 79); the argument is what \<^verbatim>\<open>getmaxyx\<close> yields.\<close>

definition get_editor_size :: "int \<times> int \<Rightarrow> coord" where
  "get_editor_size maxyx = (case maxyx of (maxrow, maxcol) \<Rightarrow> \<lparr>row = maxrow - 2, col = maxcol\<rparr>)"

text \<open>
  Lines 113 to 116 and the range of \<^verbatim>\<open>immer::for_each\<close> in line 126: the lines that
  \<^verbatim>\<open>draw_text\<close> visits.
\<close>

definition visible_lines :: "file_buffer \<Rightarrow> coord \<Rightarrow> error + line list" where
  "visible_lines buf size' =
     (let first_ln = min (row (scroll buf)) (int (length (content buf)));
          last_ln = min (wrap32 (row size' + row (scroll buf))) (int (length (content buf)))
      in iter_range (content buf) first_ln last_ln)"

text \<open>
  Lines 118 to 124. \<^verbatim>\<open>selected_region\<close> is declared in a header that is not part of
  the sources at hand: it is the parameter \<open>region\<close>. The result is \<open>None\<close> when
  \<^verbatim>\<open>has_selection\<close> is false, and the two ends with their rows moved into the frame
  of the screen otherwise.
\<close>

definition selection_on_screen ::
    "(file_buffer \<Rightarrow> coord \<times> coord) \<Rightarrow> file_buffer \<Rightarrow> (coord \<times> coord) option" where
  "selection_on_screen region buf =
     (if selection_start buf \<noteq> None
      then (case region buf of (starts, ends) \<Rightarrow>
              Some (starts\<lparr>row := row starts - row (scroll buf)\<rparr>,
                    ends\<lparr>row := row ends - row (scroll buf)\<rparr>))
      else None)"

text \<open>
  The body of the loop, lines 127 to 158, for one line \<open>ln\<close>; \<open>row'\<close> and \<open>col'\<close> are
  the local variables \<^verbatim>\<open>row\<close> and \<^verbatim>\<open>col\<close> of \<^verbatim>\<open>draw_text\<close>, \<open>size'\<close> its parameter \<^verbatim>\<open>size\<close>.
\<close>

definition draw_row ::
    "int \<Rightarrow> file_buffer \<Rightarrow> coord \<Rightarrow> (coord \<times> coord) option \<Rightarrow> int \<Rightarrow> int \<Rightarrow> line
      \<Rightarrow> error + tcall list" where
  "draw_row tw buf size' sel col' row' ln =
     (let str = display_line_fill tw ln (col (scroll buf) + col') (col size') [] in
      case sel of
        None \<Rightarrow> Inr [Move row' col', Addwstr str]
      | Some (starts, ends) \<Rightarrow>
          if row starts = row ends \<and> row starts = row' then
            and_then (c_str_at str (col starts)) (\<lambda>from_start.
            and_then (c_str_at str (col ends)) (\<lambda>from_end.
              Inr [Move row' col',
                   Addnwstr str (col starts),
                   Attron selection_color,
                   Addnwstr from_start (col ends - col starts),
                   Attroff selection_color,
                   Addnwstr from_end (int (length str) - col ends)]))
          else if row starts = row' then
            and_then (c_str_at str (col starts)) (\<lambda>from_start.
              Inr [Move row' col',
                   Addnwstr str (col starts),
                   Attron selection_color,
                   Addnwstr from_start (int (length str) - col starts),
                   Hline space (col size'),
                   Attroff selection_color])
          else if row ends = row' then
            and_then (c_str_at str (col ends)) (\<lambda>from_end.
              Inr [Move row' col',
                   Attron selection_color,
                   Addnwstr str (col ends),
                   Attroff selection_color,
                   Addnwstr from_end (int (length str) - col ends)])
          else if row starts < row' \<and> row ends > row' then
            Inr [Move row' col',
                 Attron selection_color,
                 Addwstr str,
                 Hline space (col size'),
                 Attroff selection_color]
          else
            Inr [Move row' col', Addwstr str])"

fun draw_rows ::
    "int \<Rightarrow> file_buffer \<Rightarrow> coord \<Rightarrow> (coord \<times> coord) option \<Rightarrow> int \<Rightarrow> int \<Rightarrow> line list
      \<Rightarrow> error + tcall list" where
  "draw_rows tw buf size' sel col' row' [] = Inr []"
| "draw_rows tw buf size' sel col' row' (ln # lns) =
     and_then (draw_row tw buf size' sel col' row' ln) (\<lambda>calls.
     and_then (draw_rows tw buf size' sel col' (row' + 1) lns) (\<lambda>more_calls.
       Inr (calls @ more_calls)))"

text \<open>
  \<^verbatim>\<open>draw_text\<close> (lines 106 to 161). The pair \<open>yx\<close> is the position of the terminal's
  cursor, line first, which \<^verbatim>\<open>getyx\<close> reads; \<^verbatim>\<open>getyx(stdscr, col, row)\<close> stores the
  line in \<^verbatim>\<open>col\<close> and the column in \<^verbatim>\<open>row\<close>. \<^verbatim>\<open>draw\<close> calls \<^verbatim>\<open>draw_text\<close> with the
  cursor at \<open>(0, 0)\<close>.
\<close>

definition draw_text ::
    "int \<Rightarrow> (file_buffer \<Rightarrow> coord \<times> coord) \<Rightarrow> int \<times> int \<Rightarrow> file_buffer \<Rightarrow> coord
      \<Rightarrow> error + tcall list" where
  "draw_text tw region yx buf size' =
     (case yx of (col', row') \<Rightarrow>
        and_then (visible_lines buf size') (\<lambda>lns.
        and_then (draw_rows tw buf size' (selection_on_screen region buf) col' row' lns) (\<lambda>calls.
          Inr (Attrset A_NORMAL # calls))))"

subsection \<open>Mode line and cursor\<close>

text \<open>Line 166 of \<^verbatim>\<open>draw_mode_line\<close>, and the function (lines 163 to 173).\<close>

definition dirty_mark :: "file_buffer \<Rightarrow> string" where
  "dirty_mark buf = (if content buf = file_content buf then ''--'' else ''**'')"

definition draw_mode_line :: "file_buffer \<Rightarrow> int \<Rightarrow> tcall list" where
  "draw_mode_line buf maxcol =
     [Attrset A_REVERSE,
      Printw '' %s %s  (%d, %d)''
        [Arg_str (dirty_mark buf),
         Arg_str (file_name buf),
         Arg_int (col (cursor buf)),
         Arg_int (row (cursor buf))],
      Hline space maxcol]"

text \<open>
  \<^verbatim>\<open>draw_text_cursor\<close> (lines 184 to 192). \<^verbatim>\<open>actual_display_cursor\<close> is declared in
  a header that is not part of the sources at hand: it is the parameter
  \<open>display_cursor\<close>. The argument of \<^verbatim>\<open>curs_set\<close> is a \<^verbatim>\<open>bool\<close> converted to
  \<^verbatim>\<open>int\<close>: 1 for true, 0 for false; \<^verbatim>\<open>curs_set(0)\<close> makes the cursor invisible.
\<close>

definition draw_text_cursor :: "(file_buffer \<Rightarrow> coord) \<Rightarrow> file_buffer \<Rightarrow> coord \<Rightarrow> tcall list" where
  "draw_text_cursor display_cursor buf window_size =
     (let cursor' = display_cursor buf in
      [Move (wrap32 (row cursor' - row (scroll buf))) (wrap32 (col cursor' - col (scroll buf))),
       Curs_set (of_bool (col cursor' \<ge> col (scroll buf) \<and>
                          row cursor' \<ge> row (scroll buf) \<and>
                          col cursor' < wrap32 (col (scroll buf) + col window_size) \<and>
                          row cursor' < wrap32 (row (scroll buf) + row window_size)))])"

subsection \<open>The key handler\<close>

text \<open>
  A key is the pair \<^verbatim>\<open>{res, key}\<close> of the status and the code that \<^verbatim>\<open>get_wch\<close>
  yields; a key sequence is a list of keys; a key map assigns command names to key
  sequences (\<^verbatim>\<open>map_.find\<close>). \<^verbatim>\<open>OK\<close> is 0 in ncurses.
\<close>

type_synonym key_code = "int \<times> wchar"
type_synonym key_seq = "key_code list"
type_synonym key_map = "key_seq \<Rightarrow> string option"

definition OK :: int where
  "OK = 0"

text \<open>
  The functions that \<^verbatim>\<open>handle_key\<close> calls and that are declared outside the sources at
  hand are parameters of the model, for any type \<open>'st\<close> of application states:
  \<^verbatim>\<open>eval_command\<close> and \<^verbatim>\<open>eval_insert_char\<close> (their result converts to
  \<^verbatim>\<open>boost::optional<app_state>\<close>, the empty one ends the loop of \<^verbatim>\<open>run\<close>),
  \<^verbatim>\<open>put_message\<close> and \<^verbatim>\<open>key_name\<close>. The field \<open>iscntrl\<close> is what
  \<^verbatim>\<open>std::iscntrl\<close> answers in the locale of the process, for the arguments it is
  defined for.
\<close>

record 'st externals =
  eval_command :: "'st \<Rightarrow> string \<Rightarrow> coord \<Rightarrow> 'st option"
  eval_insert_char :: "'st \<Rightarrow> wchar \<Rightarrow> coord \<Rightarrow> 'st option"
  put_message :: "'st \<Rightarrow> string \<Rightarrow> 'st"
  key_name :: "wchar \<Rightarrow> string"
  iscntrl :: "wchar \<Rightarrow> bool"

text \<open>
  \<^verbatim>\<open>std::iscntrl(int)\<close> of \<^verbatim>\<open><cctype>\<close>, which line 239 calls with a \<^verbatim>\<open>wchar_t\<close>: it
  is defined for \<^verbatim>\<open>EOF\<close>, which is \<open>-1\<close>, and for the values of \<^verbatim>\<open>unsigned char\<close>.
\<close>

definition std_iscntrl :: "'st externals \<Rightarrow> wchar \<Rightarrow> error + bool" where
  "std_iscntrl ext key =
     (if key = - 1 \<or> (0 \<le> key \<and> key \<le> 255) then Inr (iscntrl ext key)
      else Inl Bad_Ctype_Argument)"

text \<open>
  \<^verbatim>\<open>key_handler::handle_key\<close> (lines 225 to 246). The member \<^verbatim>\<open>map_\<close> never changes;
  the member \<^verbatim>\<open>seq_\<close> is passed in and returned, next to the function's result
  (\<open>map'\<close> and \<open>seq'\<close> below). \<open>maxyx\<close> is what \<^verbatim>\<open>getmaxyx\<close> yields when
  \<^verbatim>\<open>get_editor_size\<close> is called. The condition of line 239 calls \<^verbatim>\<open>std::iscntrl\<close>
  only when the two tests before it hold.
\<close>

definition handle_key ::
    "'st externals \<Rightarrow> key_map \<Rightarrow> int \<times> int \<Rightarrow> key_seq \<Rightarrow> 'st \<Rightarrow> int \<Rightarrow> wchar
      \<Rightarrow> error + key_seq \<times> 'st option" where
  "handle_key ext map' maxyx seq' state res key =
     (let seq1 = seq' @ [(res, key)] in
      case map' seq1 of
        Some cmd \<Rightarrow>
          if cmd \<noteq> [] then Inr ([], eval_command ext state cmd (get_editor_size maxyx))
          else Inr (seq1, Some state)
      | None \<Rightarrow>
          (let is_single_char = (length seq1 = 1) in
           if is_single_char \<and> res = OK then
             and_then (std_iscntrl ext key) (\<lambda>is_control.
               if \<not> is_control then
                 Inr ([], eval_insert_char ext
                        (put_message ext state (''adding character: '' @ key_name ext key))
                        key (get_editor_size maxyx))
               else Inr ([], Some (put_message ext state ''unbound key sequence'')))
           else Inr ([], Some (put_message ext state ''unbound key sequence''))))"

text \<open>
  The loop of \<^verbatim>\<open>tui::run\<close> (lines 270 to 281) on the keys that \<^verbatim>\<open>get_wch\<close> is going to
  yield: it ends with no state when \<^verbatim>\<open>handle_key\<close> yields none, and the model stops
  with the state reached when the keys given are used up.
\<close>

fun run ::
    "'st externals \<Rightarrow> key_map \<Rightarrow> int \<times> int \<Rightarrow> key_seq \<Rightarrow> 'st \<Rightarrow> key_code list
      \<Rightarrow> error + key_seq \<times> 'st option" where
  "run ext map' maxyx seq' state [] = Inr (seq', Some state)"
| "run ext map' maxyx seq' state ((res, key) # keys) =
     (case handle_key ext map' maxyx seq' state res key of
        Inl e \<Rightarrow> Inl e
      | Inr (seq'', None) \<Rightarrow> Inr (seq'', None)
      | Inr (seq'', Some state') \<Rightarrow> run ext map' maxyx seq'' state' keys)"

subsection \<open>What the calls of a drawing show\<close>




subsection \<open>The lines in view, as the specification words them\<close>


subsection \<open>The selected region\<close>

text \<open>
  Modelled from the spec: \<^verbatim>\<open>selected_region\<close> is declared in a header that is not part
  of the sources at hand. The spec gives it as the pair of the document coordinates
  where the selection starts and ends, the start first in row-major order; the two ends
  are the start of the selection and the cursor.
\<close>

definition coord_le :: "coord \<Rightarrow> coord \<Rightarrow> bool" where
  "coord_le a b = (row a < row b \<or> (row a = row b \<and> col a \<le> col b))"

definition selected_region :: "file_buffer \<Rightarrow> coord \<times> coord" where
  "selected_region buf =
     (case selection_start buf of
        None \<Rightarrow> (cursor buf, cursor buf)
      | Some s \<Rightarrow> if coord_le s (cursor buf) then (s, cursor buf) else (cursor buf, s))"


subsection \<open>Concrete inputs\<close>

text \<open>
  Modelled from the spec: \<^verbatim>\<open>make_key_map\<close> and the key constants are declared in a
  header that is not part of the sources at hand. The table below holds the entries of
  \<^verbatim>\<open>key_map_emacs\<close> for ctrl-K (code 11) and for the chord ctrl-X ctrl-C (codes 24 and
  3), and the pending entry for the prefix ctrl-X that the specification asks of a table.
\<close>

definition sample_key_map :: key_map where
  "sample_key_map =
     map_of [([(OK, 11)], ''kill-line''),
             ([(OK, 24)], []),
             ([(OK, 24), (OK, 3)], ''quit'')]"

text \<open>
  A buffer of three lines: \<open>hello world!\<close>, then \<open>a\<close>, a tab and \<open>b\<close>, then \<open>c\<close>. The
  text is scrolled five columns to the right, and the columns 7 to 9 of the first line
  are selected.
\<close>

definition sample_buffer :: file_buffer where
  "sample_buffer =
     \<lparr>content = [[104, 101, 108, 108, 111, 32, 119, 111, 114, 108, 100, 33], [97, 9, 98], [99]],
      file_content = [[104, 101, 108, 108, 111, 32, 119, 111, 114, 108, 100, 33], [97, 9, 98], [99]],
      file_name = ''notes.txt'',
      cursor = \<lparr>row = 0, col = 9\<rparr>,
      scroll = \<lparr>row = 0, col = 5\<rparr>,
      selection_start = Some \<lparr>row = 0, col = 7\<rparr>\<rparr>"

definition sample_state :: app_state where
  "sample_state = \<lparr>buffer = sample_buffer, messages = []\<rparr>"

text \<open>
  An instance of the external functions: \<open>quit\<close> ends the loop and any other command
  leaves the state as it is, a character is inserted as a line of its own in front of
  the others, a notice is appended to the log, and the control codes are those of ASCII.
\<close>

definition sample_externals :: "app_state externals" where
  "sample_externals =
     \<lparr>eval_command = (\<lambda>st cmd sz. if cmd = ''quit'' then None else Some st),
      eval_insert_char =
        (\<lambda>st c sz. Some (st\<lparr>buffer := (buffer st)\<lparr>content := [c] # content (buffer st)\<rparr>\<rparr>)),
      put_message = (\<lambda>st txt. st\<lparr>messages := messages st @ [\<lparr>content_of = txt\<rparr>]\<rparr>),
      key_name = (\<lambda>c. if c = 97 then ''a'' else ''?''),
      iscntrl = (\<lambda>c. (0 \<le> c \<and> c < 32) \<or> c = 127)\<rparr>"



section \<open>Properties of the line renderer\<close>

lemma smod_nonneg: "0 \<le> a \<Longrightarrow> 0 < b \<Longrightarrow> (a::int) smod b = a mod b"
  by (simp add: smod_int_alt_def sgn_if)

lemma next_tab_stop_eq: "next_tab_stop tw c = c + tw - c mod tw"
proof -
  have "c div tw * tw + c mod tw = c" by simp
  then show ?thesis unfolding next_tab_stop_def by (simp add: algebra_simps)
qed

lemma next_tab_stop_gt: "0 < tw \<Longrightarrow> c < next_tab_stop tw c"
proof -
  assume "0 < tw"
  then have "c mod tw < tw" by simp
  then show ?thesis by (simp add: next_tab_stop_eq)
qed

lemma drop_Cons_nat: "0 < n \<Longrightarrow> drop (nat n) (x # xs) = drop (nat (n - 1)) xs"
  by (cases "nat n") (auto simp: nat_diff_distrib)

lemma card_span_visible:
  "card ({a..<b} \<inter> {c..<d}) = nat (min b d - max a (c::int))"
proof -
  have "{a..<b} \<inter> {c..<d} = {max a c..<min b d}" by auto
  then show ?thesis by simp
qed

lemma tab_fill_count:
  fixes w f cur nxt :: int and n :: nat
  assumes "int n = max 0 (min cur (f + w) - f)" "cur < f + w" "cur < nxt"
    "0 \<le> f" "0 \<le> w" "0 \<le> cur"
  shows "min (nat w - n) (nat (nxt - cur) - nat (f - cur)) = nat (min nxt (f + w) - max cur f)"
  using assms
  by (cases "f \<le> cur") (simp_all add: min_def max_def nat_eq_iff split: if_splits, linarith+)

lemma nat_sub_shift:
  fixes f cur nxt :: int
  shows "cur < nxt \<Longrightarrow> nat (f - cur) - nat (nxt - cur) = nat (f - nxt)"
  by linarith

lemma min_sub_eq:
  fixes a l x k :: nat
  shows "min (a - l) x = k \<Longrightarrow> a - (l + x) = a - (l + k)"
  by linarith

lemma tab_fill_length:
  fixes w f cur nxt :: int and n :: nat
  assumes "int n = max 0 (min cur (f + w) - f)" "cur < f + w" "cur < nxt" "0 \<le> f" "0 \<le> w"
  shows "int (n + nat (min nxt (f + w) - max cur f)) = max 0 (min nxt (f + w) - f)"
  using assms by linarith

lemma tab_fill_length_le:
  fixes w f cur nxt :: int and n :: nat
  assumes "int n \<le> max 0 (min (cur - f) w)" "int n < w" "cur < nxt" "0 \<le> w"
  shows "int (n + nat (min nxt (f + w) - max cur f)) \<le> max 0 (min (nxt - f) w)"
  using assms by linarith

lemma tab_step:
  assumes "0 < tw" "0 \<le> cur" "w \<noteq> int (length str)"
  shows "unbounded_loop tw (tab # ln) f w cur str =
     unbounded_loop tw ln f w (next_tab_stop tw cur)
       (str @ replicate (nat (min (next_tab_stop tw cur) (f + w) - max cur f)) space)"
  using assms by (simp add: smod_nonneg next_tab_stop_eq Let_def)

text \<open>
  The loop invariant: the string holds the cells of the columns already passed that lie
  in the window, and the loop adds the window's share of the rest of the line.
\<close>

lemma loop_window:
  "0 < tw \<Longrightarrow> 0 \<le> cur \<Longrightarrow> 0 \<le> f \<Longrightarrow> 0 \<le> w \<Longrightarrow>
   int (length str) = max 0 (min cur (f + w) - f) \<Longrightarrow>
   unbounded_loop tw ln f w cur str =
     str @ take (nat w - length str) (drop (nat (f - cur)) (expand_tabs tw cur ln))"
proof (induction ln arbitrary: cur str)
  case Nil
  then show ?case by simp
next
  case (Cons c ln)
  note tw = \<open>0 < tw\<close> and cur = \<open>0 \<le> cur\<close> and f = \<open>0 \<le> f\<close> and w = \<open>0 \<le> w\<close>
  note len = \<open>int (length str) = max 0 (min cur (f + w) - f)\<close>
  show ?case
  proof (cases "w = int (length str)")
    case True
    then show ?thesis by simp
  next
    case False
    with len w have below: "cur < f + w" and lt: "int (length str) < w" by auto
    show ?thesis
    proof (cases "c = tab")
      case True
      define nxt where "nxt = next_tab_stop tw cur"
      define k where "k = min nxt (f + w) - max cur f"
      have nxt: "cur < nxt" "0 \<le> nxt"
        using next_tab_stop_gt [OF tw, of cur] cur by (auto simp: nxt_def)
      have len': "int (length (str @ replicate (nat k) space)) = max 0 (min nxt (f + w) - f)"
        using tab_fill_length [OF len below nxt(1) f w] by (simp add: k_def)
      have step: "unbounded_loop tw (c # ln) f w cur str =
          unbounded_loop tw ln f w nxt (str @ replicate (nat k) space)"
        using tab_step [OF tw cur False] True by (simp add: nxt_def k_def)
      have ih: "unbounded_loop tw ln f w nxt (str @ replicate (nat k) space) =
          (str @ replicate (nat k) space) @
            take (nat w - length (str @ replicate (nat k) space))
              (drop (nat (f - nxt)) (expand_tabs tw nxt ln))"
        by (rule Cons.IH [OF tw nxt(2) f w len'])
      have ex: "expand_tabs tw cur (c # ln) =
          replicate (nat (nxt - cur)) space @ expand_tabs tw nxt ln"
        using True by (simp add: nxt_def)
      have a: "min (nat w - length str) (nat (nxt - cur) - nat (f - cur)) = nat k"
        unfolding k_def by (rule tab_fill_count [OF len below nxt(1) f w cur])
      have b: "nat (f - cur) - nat (nxt - cur) = nat (f - nxt)"
        by (rule nat_sub_shift [OF nxt(1)])
      have c: "nat w - (length str + (nat (nxt - cur) - nat (f - cur))) =
          nat w - (length str + nat k)"
        by (rule min_sub_eq [OF a])
      have "take (nat w - length str) (drop (nat (f - cur)) (expand_tabs tw cur (c # ln))) =
          replicate (nat k) space @ take (nat w - (length str + nat k))
            (drop (nat (f - nxt)) (expand_tabs tw nxt ln))"
        unfolding ex by (simp add: a b c)
      then show ?thesis unfolding step ih by simp
    next
      case nt: False
      have cur1: "0 \<le> cur + 1" using cur by simp
      show ?thesis
      proof (cases "f \<le> cur")
        case True
        have len': "int (length (str @ [c])) = max 0 (min (cur + 1) (f + w) - f)"
          using len below True by auto
        from Cons.IH [OF tw cur1 f w len'] True nt False lt show ?thesis
          by (simp add: take_Cons' nat_diff_distrib)
      next
        case False
        then have e: "str = []" using len by auto
        have len': "int (length str) = max 0 (min (cur + 1) (f + w) - f)"
          using e False by auto
        from Cons.IH [OF tw cur1 f w len'] False nt \<open>w \<noteq> int (length str)\<close> e
        show ?thesis
          by (simp add: drop_Cons_nat algebra_simps)
      qed
    qed
  qed
qed

text \<open>The output never grows beyond the width, whatever the first column is.\<close>

lemma loop_length_le:
  "0 < tw \<Longrightarrow> 0 \<le> cur \<Longrightarrow> 0 \<le> w \<Longrightarrow>
   int (length str) \<le> max 0 (min (cur - f) w) \<Longrightarrow>
   int (length (unbounded_loop tw ln f w cur str)) \<le> w"
proof (induction ln arbitrary: cur str)
  case Nil
  then show ?case by auto
next
  case (Cons c ln)
  note tw = \<open>0 < tw\<close> and cur = \<open>0 \<le> cur\<close> and w = \<open>0 \<le> w\<close>
  note len = \<open>int (length str) \<le> max 0 (min (cur - f) w)\<close>
  show ?case
  proof (cases "w = int (length str)")
    case True
    then show ?thesis by simp
  next
    case False
    with len w have lt: "int (length str) < w" by auto
    show ?thesis
    proof (cases "c = tab")
      case True
      define nxt where "nxt = next_tab_stop tw cur"
      define k where "k = min nxt (f + w) - max cur f"
      have nxt: "cur < nxt" "0 \<le> nxt"
        using next_tab_stop_gt [OF tw, of cur] cur by (auto simp: nxt_def)
      have len': "int (length (str @ replicate (nat k) space)) \<le> max 0 (min (nxt - f) w)"
        using tab_fill_length_le [OF len lt nxt(1) w] by (simp add: k_def)
      have step: "unbounded_loop tw (c # ln) f w cur str =
          unbounded_loop tw ln f w nxt (str @ replicate (nat k) space)"
        using tab_step [OF tw cur False] True by (simp add: nxt_def k_def)
      show ?thesis unfolding step by (rule Cons.IH [OF tw nxt(2) w len'])
    next
      case nt: False
      have cur1: "0 \<le> cur + 1" using cur by simp
      show ?thesis
      proof (cases "f \<le> cur")
        case True
        have len': "int (length (str @ [c])) \<le> max 0 (min (cur + 1 - f) w)"
          using len lt True by auto
        from Cons.IH [OF tw cur1 w len'] True nt False show ?thesis by simp
      next
        case False
        have len': "int (length str) \<le> max 0 (min (cur + 1 - f) w)"
          using len False by auto
        from Cons.IH [OF tw cur1 w len'] False nt \<open>w \<noteq> int (length str)\<close>
        show ?thesis by simp
      qed
    qed
  qed
qed

lemma expand_tabs_no_tab: "tab \<notin> set ln \<Longrightarrow> expand_tabs tw c ln = ln"
  by (induction ln arbitrary: c) auto


text \<open>The loop of the code is the loop on unbounded integers while its sums fit.\<close>

lemma wrap32_id: "- 2147483648 \<le> x \<Longrightarrow> x < 2147483648 \<Longrightarrow> wrap32 x = x"
  by (simp add: wrap32_def)

lemma tab_step_fits:
  fixes tw cur f w :: int
  assumes "0 < tw" "0 \<le> cur" "0 \<le> w" "f + w < 2147483648" "cur + tw + \<bar>f\<bar> < 2147483648"
  shows "wrap32 (wrap32 (cur + tw) - (cur smod tw)) = next_tab_stop tw cur"
    and "wrap32 (min (next_tab_stop tw cur) (wrap32 (f + w)) - max cur f) =
         min (next_tab_stop tw cur) (f + w) - max cur f"
    and "min (next_tab_stop tw cur) (f + w) - max cur f \<le> tw"
    and "next_tab_stop tw cur \<le> cur + tw"
proof -
  have m: "0 \<le> cur mod tw" "cur mod tw < tw" using assms(1) by simp_all
  have n: "next_tab_stop tw cur = cur + tw - cur mod tw" by (rule next_tab_stop_eq)
  have a: "wrap32 (cur + tw) = cur + tw" using assms by (intro wrap32_id) linarith+
  show 1: "wrap32 (wrap32 (cur + tw) - (cur smod tw)) = next_tab_stop tw cur"
    unfolding a smod_nonneg [OF assms(2) assms(1)] n using assms m by (intro wrap32_id) linarith+
  have b: "wrap32 (f + w) = f + w" using assms by (intro wrap32_id) linarith+
  show "wrap32 (min (next_tab_stop tw cur) (wrap32 (f + w)) - max cur f) =
         min (next_tab_stop tw cur) (f + w) - max cur f"
    unfolding b n using assms m by (intro wrap32_id) linarith+
  show "min (next_tab_stop tw cur) (f + w) - max cur f \<le> tw"
    unfolding n using m by linarith
  show "next_tab_stop tw cur \<le> cur + tw" unfolding n using m by linarith
qed

lemma loop_eq_unbounded:
  "0 < tw \<Longrightarrow> 0 \<le> cur \<Longrightarrow> 0 \<le> w \<Longrightarrow> f + w < 2147483648 \<Longrightarrow>
   cur + tw * int (length ln) + \<bar>f\<bar> < 2147483648 \<Longrightarrow>
   int (length str) + tw * int (length ln) < 2147483648 \<Longrightarrow>
   display_line_loop tw ln f w cur str = unbounded_loop tw ln f w cur str"
proof (induction ln arbitrary: cur str)
  case Nil
  show ?case by simp
next
  case (Cons c ln)
  note tw = \<open>0 < tw\<close> and cur = \<open>0 \<le> cur\<close> and w = \<open>0 \<le> w\<close> and fw = \<open>f + w < 2147483648\<close>
  define N where "N = tw * int (length ln)"
  have N0: "0 \<le> N" using tw by (simp add: N_def)
  have len: "tw * int (length (c # ln)) = tw + N" by (simp add: N_def algebra_simps)
  have bc: "cur + tw + N + \<bar>f\<bar> < 2147483648" using Cons.prems(5) len by linarith
  have bs: "int (length str) + tw + N < 2147483648" using Cons.prems(6) len by linarith
  have sz: "wrap32 (int (length str)) = int (length str)"
    using bs tw N0 by (intro wrap32_id) linarith+
  have one: "wrap32 (cur + 1) = cur + 1" using bc cur tw N0 by (intro wrap32_id) linarith+
  have cur1: "0 \<le> cur + 1" using cur by simp
  have bc1: "cur + 1 + tw * int (length ln) + \<bar>f\<bar> < 2147483648"
    using bc tw unfolding N_def by linarith
  have bs0: "int (length str) + tw * int (length ln) < 2147483648"
    using bs tw unfolding N_def by linarith
  have bs1: "int (length (str @ [c])) + tw * int (length ln) < 2147483648"
    using bs tw unfolding N_def by simp
  show ?case
  proof (cases "c = tab")
    case True
    have ct: "cur + tw + \<bar>f\<bar> < 2147483648" using bc N0 by linarith
    note fits = tab_step_fits [OF tw cur w fw ct]
    define nxt where "nxt = next_tab_stop tw cur"
    define k where "k = min nxt (f + w) - max cur f"
    have nxt0: "0 \<le> nxt" using next_tab_stop_gt [OF tw, of cur] cur by (simp add: nxt_def)
    have b1: "nxt + tw * int (length ln) + \<bar>f\<bar> < 2147483648"
      using fits(4) bc unfolding nxt_def N_def by linarith
    have "int (nat k) \<le> tw" using fits(3) tw unfolding k_def nxt_def by linarith
    then have b2: "int (length (str @ replicate (nat k) space)) + tw * int (length ln) < 2147483648"
      using bs unfolding N_def by simp
    have ih: "display_line_loop tw ln f w nxt (str @ replicate (nat k) space) =
        unbounded_loop tw ln f w nxt (str @ replicate (nat k) space)"
      by (rule Cons.IH [OF tw nxt0 w fw b1 b2])
    have u: "cur + tw - cur smod tw = nxt"
      unfolding nxt_def next_tab_stop_eq smod_nonneg [OF cur tw] ..
    have f1: "wrap32 (wrap32 (cur + tw) - cur smod tw) = nxt"
      using fits(1) by (simp add: nxt_def)
    have f2: "wrap32 (min nxt (wrap32 (f + w)) - max cur f) = k"
      using fits(2) by (simp add: nxt_def k_def)
    show ?thesis
      using True ih by (simp add: sz f1 f2 u Let_def k_def [symmetric])
  next
    case False
    show ?thesis
      using False Cons.IH [OF tw cur1 w fw bc1 bs1] Cons.IH [OF tw cur1 w fw bc1 bs0]
      by (simp add: sz one)
  qed
qed

lemma loop_tab_free:
  "tab \<notin> set ln \<Longrightarrow>
   display_line_loop tw ln f w cur str = display_line_loop 1 ln f w cur str"
  by (induction ln arbitrary: cur str) auto

lemma display_line_fill_unbounded:
  assumes "0 < tw" "0 \<le> w" "f + w < 2147483648" "tw * int (length ln) + \<bar>f\<bar> < 2147483648"
  shows "display_line_fill tw ln f w [] = unbounded_loop tw ln f w 0 []"
proof -
  have "0 \<le> tw * int (length ln)" using assms(1) by simp
  then have "int (length ([]::wstring)) + tw * int (length ln) < 2147483648"
    using assms(4) by simp
  with assms show ?thesis
    unfolding display_line_fill_def by (intro loop_eq_unbounded) simp_all
qed

lemma display_line_fill_window:
  assumes "0 < tw" "0 \<le> f" "0 \<le> w" "f + w < 2147483648"
    "tw * int (length ln) + f < 2147483648"
  shows "display_line_fill tw ln f w [] = take (nat w) (drop (nat f) (expand_tabs tw 0 ln))"
proof -
  have "tw * int (length ln) + \<bar>f\<bar> < 2147483648" using assms by simp
  from display_line_fill_unbounded [OF assms(1) assms(3) assms(4) this]
    loop_window [of tw 0 f w "[]" ln] assms
  show ?thesis by simp
qed

lemma display_line_fill_length_le:
  assumes "0 < tw" "0 \<le> w" "f + w < 2147483648" "tw * int (length ln) + \<bar>f\<bar> < 2147483648"
  shows "int (length (display_line_fill tw ln f w [])) \<le> w"
  using display_line_fill_unbounded [OF assms] loop_length_le [of tw 0 w "[]" f ln] assms
  by simp

text \<open>
  C1. As long as no sum of the loop leaves the range of \<^verbatim>\<open>int\<close>, the line renderer
  expands a tab to the next multiple of the tab width, counted from the current expanded
  column: with the output not yet full, the step of the loop at a tab in column \<open>cur\<close>
  appends one blank for every column of the span from \<open>cur\<close> to the next tab stop that
  lies in the window \<open>[f, f + w)\<close>, and goes on at the tab stop, however many of them
  were visible. For a whole line, first column \<open>f \<ge> 0\<close> and width \<open>w \<ge> 0\<close> with
  \<open>f + w\<close> and the tab width times the length of the line plus \<open>f\<close> below \<open>2^31\<close>, the
  output is the window \<open>[f, f + w)\<close> of the line with every tab expanded. The line
  \<open>a, tab, b\<close> with tab width 8, rendered from column 0 over width 10, is \<open>a\<close>, seven
  blanks and \<open>b\<close>.
\<close>

theorem display_line_fill_tab_stops:
  "(0 < tw \<and> 0 \<le> cur \<and> w \<noteq> int (length str) \<and> int (length str) < 2147483648 \<and>
    0 \<le> w \<and> f + w < 2147483648 \<and> cur + tw + \<bar>f\<bar> < 2147483648 \<longrightarrow>
      display_line_loop tw (tab # ln) f w cur str =
        display_line_loop tw ln f w (next_tab_stop tw cur)
          (str @ replicate (card ({cur..<next_tab_stop tw cur} \<inter> {f..<f + w})) space)) \<and>
   (0 < tw \<and> 0 \<le> f \<and> 0 \<le> w \<and> f + w < 2147483648 \<and>
    tw * int (length ln) + f < 2147483648 \<longrightarrow>
      display_line_fill tw ln f w [] = take (nat w) (drop (nat f) (expand_tabs tw 0 ln))) \<and>
   display_line_fill tab_width [97, tab, 98] 0 10 [] = [97] @ replicate 7 space @ [98]"
proof (intro conjI impI)
  assume a: "0 < tw \<and> 0 \<le> cur \<and> w \<noteq> int (length str) \<and> int (length str) < 2147483648 \<and>
    0 \<le> w \<and> f + w < 2147483648 \<and> cur + tw + \<bar>f\<bar> < 2147483648"
  then have sz: "wrap32 (int (length str)) = int (length str)"
    by (intro wrap32_id) linarith+
  from a have h: "0 < tw" "0 \<le> cur" "0 \<le> w" "f + w < 2147483648"
    "cur + tw + \<bar>f\<bar> < 2147483648"
    by simp_all
  note fits = tab_step_fits(1) [OF h] tab_step_fits(2) [OF h]
  from a show "display_line_loop tw (tab # ln) f w cur str =
        display_line_loop tw ln f w (next_tab_stop tw cur)
          (str @ replicate (card ({cur..<next_tab_stop tw cur} \<inter> {f..<f + w})) space)"
    by (simp add: sz fits Let_def card_span_visible)
next
  assume "0 < tw \<and> 0 \<le> f \<and> 0 \<le> w \<and> f + w < 2147483648 \<and>
    tw * int (length ln) + f < 2147483648"
  then show "display_line_fill tw ln f w [] =
      take (nat w) (drop (nat f) (expand_tabs tw 0 ln))"
    by (simp add: display_line_fill_window)
next
  show "display_line_fill tab_width [97, tab, 98] 0 10 [] = [97] @ replicate 7 space @ [98]"
    by (simp add: display_line_fill_def tab_width_def tab_def smod_int_alt_def wrap32_def
        numeral_eq_Suc)
qed

theorem display_line_fill_tab_stops_witness:
  "display_line_loop 8 [tab, 98] 3 10 1 [] = replicate 5 space @ [98] \<and>
   display_line_fill 8 [97, tab, 98, tab, 99] 3 9 [] = replicate 5 space @ [98] @ replicate 3 space"
proof -
  have "display_line_loop 8 (tab # [98]) 3 10 1 [] =
      display_line_loop 8 [98] 3 10 (next_tab_stop 8 1)
        ([] @ replicate (card ({1..<next_tab_stop 8 1} \<inter> {3..<3 + 10})) space)"
    using display_line_fill_tab_stops [of 8 1 10 "[]" 3 "[98]"] by simp
  moreover have "card ({1..<next_tab_stop 8 1} \<inter> {3..<3 + (10::int)}) = 5"
    by (simp add: card_span_visible next_tab_stop_def)
  moreover have "display_line_fill 8 [97, tab, 98, tab, 99] 3 9 [] =
      take (nat 9) (drop (nat 3) (expand_tabs 8 0 [97, tab, 98, tab, 99]))"
    using display_line_fill_tab_stops [of 8 0 9 "[]" 3 "[97, tab, 98, tab, 99]"] by simp
  ultimately show ?thesis
    by (simp add: next_tab_stop_def tab_def wrap32_def numeral_eq_Suc)
qed

text \<open>
  The statement without the bound fails: from the first column \<open>2^31 - 1\<close> with width
  10 the sum of the two is not a value of \<^verbatim>\<open>int\<close>, and for a tab in column 0, whose
  columns 0 to 7 have nothing in the window, the renderer emits ten blanks.
\<close>

theorem display_line_fill_tab_stops_overflow:
  "card ({0..<next_tab_stop 8 0} \<inter> {2147483647..<2147483647 + 10}) = 0 \<and>
   take (nat 10) (drop (nat 2147483647) (expand_tabs 8 0 [tab])) = [] \<and>
   display_line_fill 8 [tab] 2147483647 10 [] = replicate 10 space"
  by (simp add: card_span_visible next_tab_stop_def display_line_fill_def wrap32_def
      smod_int_alt_def)

text \<open>
  C5. For a width \<open>w \<ge> 0\<close> and a first visible column \<open>f\<close>, of either sign, such
  that no sum of the loop leaves the range of \<^verbatim>\<open>int\<close> (\<open>f + w\<close> and the tab width times
  the length of the line plus the absolute value of \<open>f\<close> are below \<open>2^31\<close>), the line
  renderer emits at most \<open>w\<close> cells; it emits exactly \<open>w\<close> cells when moreover
  \<open>f \<ge> 0\<close> and the expanded line reaches the right edge of the window (\<open>f + w\<close> is
  at most its expanded length). A line without tabs of length \<open>L\<close>, rendered from
  column 0 over width \<open>W\<close>, both below \<open>2^31\<close>, comes out unchanged when \<open>L \<le> W\<close>, and
  as its first \<open>W\<close> cells when \<open>W < L\<close>.
\<close>

theorem display_line_fill_width:
  "(0 < tw \<and> 0 \<le> w \<and> f + w < 2147483648 \<and> tw * int (length ln) + \<bar>f\<bar> < 2147483648 \<longrightarrow>
      int (length (display_line_fill tw ln f w [])) \<le> w) \<and>
   (0 < tw \<and> 0 \<le> f \<and> 0 \<le> w \<and> f + w < 2147483648 \<and>
    tw * int (length ln) + f < 2147483648 \<and>
    f + w \<le> int (length (expand_tabs tw 0 ln)) \<longrightarrow>
      int (length (display_line_fill tw ln f w [])) = w) \<and>
   (0 \<le> w \<and> w < 2147483648 \<and> tab \<notin> set ln \<and> int (length ln) \<le> w \<longrightarrow>
      display_line_fill tw ln 0 w [] = ln) \<and>
   (0 \<le> w \<and> tab \<notin> set ln \<and> w < int (length ln) \<and> int (length ln) < 2147483648 \<longrightarrow>
      display_line_fill tw ln 0 w [] = take (nat w) ln \<and>
      int (length (display_line_fill tw ln 0 w [])) = w)"
proof (intro conjI impI)
  assume "0 < tw \<and> 0 \<le> w \<and> f + w < 2147483648 \<and> tw * int (length ln) + \<bar>f\<bar> < 2147483648"
  then show "int (length (display_line_fill tw ln f w [])) \<le> w"
    by (simp add: display_line_fill_length_le)
next
  assume "0 < tw \<and> 0 \<le> f \<and> 0 \<le> w \<and> f + w < 2147483648 \<and>
    tw * int (length ln) + f < 2147483648 \<and>
    f + w \<le> int (length (expand_tabs tw 0 ln))"
  then show "int (length (display_line_fill tw ln f w [])) = w"
    by (simp add: display_line_fill_window) linarith
next
  assume a: "0 \<le> w \<and> w < 2147483648 \<and> tab \<notin> set ln \<and> int (length ln) \<le> w"
  then have "display_line_fill tw ln 0 w [] = display_line_fill 1 ln 0 w []"
    by (simp add: display_line_fill_def loop_tab_free [of ln tw])
  moreover from a have "length ln \<le> nat w" by linarith
  ultimately show "display_line_fill tw ln 0 w [] = ln"
    using a by (simp add: display_line_fill_window expand_tabs_no_tab)
next
  assume a: "0 \<le> w \<and> tab \<notin> set ln \<and> w < int (length ln) \<and> int (length ln) < 2147483648"
  then have "display_line_fill tw ln 0 w [] = display_line_fill 1 ln 0 w []"
    by (simp add: display_line_fill_def loop_tab_free [of ln tw])
  then show t: "display_line_fill tw ln 0 w [] = take (nat w) ln"
    using a by (simp add: display_line_fill_window expand_tabs_no_tab)
  from a have "nat w \<le> length ln" by linarith
  then show "int (length (display_line_fill tw ln 0 w [])) = w"
    using a by (simp add: t)
qed

theorem display_line_fill_width_witness:
  "int (length (display_line_fill 8 [97, tab, 98] (- 5) 3 [])) \<le> 3 \<and>
   int (length (display_line_fill 8 [97, tab, 98] 2 4 [])) = 4 \<and>
   display_line_fill 8 [104, 105] 0 5 [] = [104, 105] \<and>
   display_line_fill 8 [104, 101, 108, 108, 111] 0 2 [] = [104, 101]"
proof -
  have "int (length (display_line_fill 8 [97, tab, 98] (- 5) 3 [])) \<le> 3"
    using display_line_fill_width [of 8 3 "- 5" "[97, tab, 98]"] by simp
  moreover have "int (length (display_line_fill 8 [97, tab, 98] 2 4 [])) = 4"
    using display_line_fill_width [of 8 4 2 "[97, tab, 98]"]
    by (simp add: next_tab_stop_def tab_def)
  moreover have "display_line_fill 8 [104, 105] 0 5 [] = [104, 105]"
    using display_line_fill_width [of 8 5 0 "[104, 105]"] by (simp add: tab_def)
  moreover have "display_line_fill 8 [104, 101, 108, 108, 111] 0 2 [] = [104, 101]"
    using display_line_fill_width [of 8 2 0 "[104, 101, 108, 108, 111]"]
    by (simp add: tab_def numeral_eq_Suc)
  ultimately show ?thesis by simp
qed

text \<open>
  The statement fails for a negative first column: two tabs expand to sixteen columns,
  more than the width 3, and from the first column \<open>-5\<close> the renderer emits no cell.
\<close>

theorem display_line_fill_width_negative_column:
  "3 \<le> int (length (expand_tabs 8 0 [tab, tab])) \<and>
   display_line_fill 8 [tab, tab] (- 5) 3 [] = [] \<and>
   int (length (display_line_fill 8 [tab, tab] (- 5) 3 [])) \<noteq> 3"
  by (simp add: next_tab_stop_def display_line_fill_def wrap32_def smod_int_alt_def)

section \<open>Properties of the cursor and of the mode line\<close>

text \<open>
  C7. When the sums of the scroll position and the size of the window are values of
  \<^verbatim>\<open>int\<close>, \<^verbatim>\<open>draw_text_cursor\<close> moves the terminal's cursor to the expanded display
  cursor, relative to the scroll position, and sets its visibility to 0 (invisible)
  exactly when the display cursor lies outside the viewport: its column is less than
  \<open>scroll.col\<close> or at least \<open>scroll.col\<close> plus the width, or its row is less than
  \<open>scroll.row\<close> or at least \<open>scroll.row\<close> plus the height; it sets it to 1 (visible)
  otherwise.
\<close>

theorem draw_text_cursor_visibility:
  "- 2147483648 \<le> col (scroll buf) + col window_size \<and>
   col (scroll buf) + col window_size < 2147483648 \<and>
   - 2147483648 \<le> row (scroll buf) + row window_size \<and>
   row (scroll buf) + row window_size < 2147483648 \<longrightarrow>
   draw_text_cursor display_cursor buf window_size =
     [Move (wrap32 (row (display_cursor buf) - row (scroll buf)))
           (wrap32 (col (display_cursor buf) - col (scroll buf))),
      Curs_set (if col (display_cursor buf) < col (scroll buf) \<or>
                   col (scroll buf) + col window_size \<le> col (display_cursor buf) \<or>
                   row (display_cursor buf) < row (scroll buf) \<or>
                   row (scroll buf) + row window_size \<le> row (display_cursor buf)
                then 0 else 1)]"
  by (auto simp: draw_text_cursor_def Let_def wrap32_id)

theorem draw_text_cursor_visibility_witness:
  "draw_text_cursor cursor sample_buffer \<lparr>row = 3, col = 5\<rparr> = [Move 0 4, Curs_set 1] \<and>
   draw_text_cursor cursor sample_buffer \<lparr>row = 3, col = 4\<rparr> = [Move 0 4, Curs_set 0]"
proof -
  have "draw_text_cursor cursor sample_buffer \<lparr>row = 3, col = 5\<rparr> = [Move 0 4, Curs_set 1]"
    using draw_text_cursor_visibility [of sample_buffer "\<lparr>row = 3, col = 5\<rparr>" cursor]
    by (simp add: sample_buffer_def wrap32_def)
  moreover
  have "draw_text_cursor cursor sample_buffer \<lparr>row = 3, col = 4\<rparr> = [Move 0 4, Curs_set 0]"
    using draw_text_cursor_visibility [of sample_buffer "\<lparr>row = 3, col = 4\<rparr>" cursor]
    by (simp add: sample_buffer_def wrap32_def)
  ultimately show ?thesis by simp
qed

text \<open>
  The statement without the bound fails: with the text scrolled to column \<open>2^31 - 8\<close>
  and a window ten columns wide, the sum of the two is not a value of \<^verbatim>\<open>int\<close>, and a
  display cursor five columns into the window is set invisible.
\<close>

theorem draw_text_cursor_visibility_overflow:
  "(2147483640::int) \<le> 2147483645 \<and> (2147483645::int) < 2147483640 + 10 \<and>
   draw_text_cursor cursor
     (sample_buffer\<lparr>cursor := \<lparr>row = 0, col = 2147483645\<rparr>,
                     scroll := \<lparr>row = 0, col = 2147483640\<rparr>\<rparr>)
     \<lparr>row = 3, col = 10\<rparr> =
     [Move 0 5, Curs_set 0]"
  by (simp add: draw_text_cursor_def wrap32_def)

text \<open>
  C9. The mode line shows the mark \<open>--\<close> if and only if the content of the buffer
  equals, as a value, the content of the file, and the mark \<open>**\<close> otherwise. The
  mark is the first argument that \<^verbatim>\<open>draw_mode_line\<close> prints, and it is computed from
  the two contents alone: a buffer whose content has come back to the file's content is
  clean.
\<close>

theorem dirty_mark_structural:
  "(dirty_mark buf = ''--'' \<longleftrightarrow> content buf = file_content buf) \<and>
   (dirty_mark buf = ''**'' \<longleftrightarrow> content buf \<noteq> file_content buf) \<and>
   dirty_mark (buf\<lparr>content := file_content buf\<rparr>) = ''--'' \<and>
   (\<exists>rest. draw_mode_line buf maxcol =
      [Attrset A_REVERSE,
       Printw '' %s %s  (%d, %d)'' (Arg_str (dirty_mark buf) # rest),
       Hline space maxcol])"
  by (simp add: dirty_mark_def draw_mode_line_def)

section \<open>Properties of the key handler\<close>

lemma run_append:
  "run ext map' maxyx seq' state (xs @ ys) =
     (case run ext map' maxyx seq' state xs of
        Inl e \<Rightarrow> Inl e
      | Inr (seq'', None) \<Rightarrow> Inr (seq'', None)
      | Inr (seq'', Some state') \<Rightarrow> run ext map' maxyx seq'' state' ys)"
  by (induction xs arbitrary: seq' state) (auto split: sum.splits prod.splits option.splits)

lemma handle_key_pending:
  "map' (seq' @ [(res, key)]) = Some [] \<Longrightarrow>
   handle_key ext map' maxyx seq' state res key = Inr (seq' @ [(res, key)], Some state)"
  by (simp add: handle_key_def)

lemma run_pending:
  "(\<And>k. 0 < k \<Longrightarrow> k \<le> length p \<Longrightarrow> map' (s @ take k p) = Some []) \<Longrightarrow>
   run ext map' maxyx s state p = Inr (s @ p, Some state)"
proof (induction p arbitrary: s)
  case Nil
  then show ?case by simp
next
  case (Cons e p)
  obtain res key where e: "e = (res, key)" by (cases e)
  have "map' (s @ take 1 (e # p)) = Some []" by (rule Cons.prems) simp_all
  then have first: "handle_key ext map' maxyx s state res key = Inr (s @ [e], Some state)"
    by (simp add: e handle_key_pending)
  have "run ext map' maxyx (s @ [e]) state p = Inr ((s @ [e]) @ p, Some state)"
  proof (rule Cons.IH)
    fix k assume "0 < k" "k \<le> length p"
    then have "map' (s @ take (Suc k) (e # p)) = Some []" by (intro Cons.prems) simp_all
    then show "map' ((s @ [e]) @ take k p) = Some []" by simp
  qed
  with first show ?case by (simp add: e)
qed

lemma handle_key_matched:
  "map' (seq' @ [(res, key)]) = Some name \<Longrightarrow> name \<noteq> [] \<Longrightarrow>
   handle_key ext map' maxyx seq' state res key =
     Inr ([], eval_command ext state name (get_editor_size maxyx))"
  by (simp add: handle_key_def)

text \<open>
  The unbound case, for a key that \<^verbatim>\<open>std::iscntrl\<close> is defined for or a call that does
  not reach it.
\<close>

lemma handle_key_unbound_notice:
  "map' (seq' @ [(res, key)]) = None \<Longrightarrow>
   seq' \<noteq> [] \<or> res \<noteq> OK \<or> (std_iscntrl ext key = Inr True) \<Longrightarrow>
   handle_key ext map' maxyx seq' state res key =
     Inr ([], Some (put_message ext state ''unbound key sequence''))"
  by (auto simp: handle_key_def and_then_def)

lemma handle_key_insert:
  "map' [(res, key)] = None \<Longrightarrow> res = OK \<Longrightarrow> std_iscntrl ext key = Inr False \<Longrightarrow>
   handle_key ext map' maxyx [] state res key =
     Inr ([], eval_insert_char ext
            (put_message ext state (''adding character: '' @ key_name ext key))
            key (get_editor_size maxyx))"
  by (simp add: handle_key_def and_then_def)

lemma run_unbound_after_prefix:
  assumes "p \<noteq> []" and "\<forall>k. 0 < k \<and> k \<le> length p \<longrightarrow> map' (take k p) = Some []"
    and "map' (p @ [e]) = None"
  shows "run ext map' maxyx [] state (p @ [e]) =
        Inr ([], Some (put_message ext state ''unbound key sequence''))"
proof -
  have "run ext map' maxyx [] state p = Inr ([] @ p, Some state)"
    by (rule run_pending) (use assms in simp)
  moreover obtain res key where e: "e = (res, key)" by (cases e)
  moreover have "handle_key ext map' maxyx p state res key =
      Inr ([], Some (put_message ext state ''unbound key sequence''))"
    by (rule handle_key_unbound_notice) (use assms e in simp_all)
  ultimately show ?thesis by (simp add: run_append)
qed

text \<open>
  C3. Let \<open>c\<close> be a chord bound to the name \<open>name\<close> in a key binding table that
  records every strict, non-empty prefix of \<open>c\<close> as pending (with the empty name).
  Feeding the keys of \<open>c\<close> one at a time, from the empty pending sequence, evaluates
  the command \<open>name\<close> and nothing else, and leaves the pending sequence empty: after
  any strict prefix of \<open>c\<close> the state is the one at the start and the pending
  sequence is that prefix, and the last key of \<open>c\<close> yields the result of evaluating
  \<open>name\<close> on that state.
\<close>

theorem bound_chord_runs_command:
  assumes "c \<noteq> []" and "map' c = Some name" and "name \<noteq> []"
    and "\<forall>k. 0 < k \<and> k < length c \<longrightarrow> map' (take k c) = Some []"
  shows "run ext map' maxyx [] state c =
           Inr ([], eval_command ext state name (get_editor_size maxyx)) \<and>
         (\<forall>k. k < length c \<longrightarrow>
            run ext map' maxyx [] state (take k c) = Inr (take k c, Some state)) \<and>
         handle_key ext map' maxyx (butlast c) state (fst (last c)) (snd (last c)) =
           Inr ([], eval_command ext state name (get_editor_size maxyx))"
proof -
  have pre: "run ext map' maxyx [] state (take k c) = Inr (take k c, Some state)"
    if "k < length c" for k
  proof -
    have "run ext map' maxyx [] state (take k c) = Inr ([] @ take k c, Some state)"
    proof (rule run_pending)
      fix j assume "0 < j" "j \<le> length (take k c)"
      with that assms(4) have "map' (take j c) = Some []" by simp
      moreover have "j \<le> k" using \<open>j \<le> length (take k c)\<close> by simp
      then have "take j (take k c) = take j c" by (simp add: min_absorb1)
      ultimately show "map' ([] @ take j (take k c)) = Some []" by simp
    qed
    then show ?thesis by simp
  qed
  define p where "p = butlast c"
  obtain res key where lc: "last c = (res, key)" by (cases "last c")
  have c: "c = p @ [(res, key)]"
    using assms(1) lc unfolding p_def by (metis append_butlast_last_id)
  have last_step: "handle_key ext map' maxyx p state res key =
      Inr ([], eval_command ext state name (get_editor_size maxyx))"
    by (rule handle_key_matched) (use assms c in simp_all)
  have "p = take (length c - 1) c" by (simp add: p_def butlast_conv_take)
  moreover have "length c - 1 < length c" using assms(1) by simp
  ultimately have "run ext map' maxyx [] state p = Inr (p, Some state)"
    using pre by simp
  then have "run ext map' maxyx [] state (p @ [(res, key)]) =
      Inr ([], eval_command ext state name (get_editor_size maxyx))"
    by (simp add: run_append last_step split: option.splits)
  then have "run ext map' maxyx [] state c =
      Inr ([], eval_command ext state name (get_editor_size maxyx))"
    using c by simp
  moreover have "handle_key ext map' maxyx (butlast c) state (fst (last c)) (snd (last c)) =
      Inr ([], eval_command ext state name (get_editor_size maxyx))"
    using last_step by (simp add: p_def lc)
  ultimately show ?thesis using pre by blast
qed

theorem bound_chord_runs_command_witness:
  "run sample_externals sample_key_map (24, 80) [] sample_state [(OK, 24), (OK, 3)] =
     Inr ([], None) \<and>
   run sample_externals sample_key_map (24, 80) [] sample_state [(OK, 24)] =
     Inr ([(OK, 24)], Some sample_state) \<and>
   run sample_externals sample_key_map (24, 80) [] sample_state [] = Inr ([], Some sample_state)"
proof -
  have 1: "[(OK, 24), (OK, 3)] \<noteq> []" by simp
  have 2: "sample_key_map [(OK, 24), (OK, 3)] = Some ''quit''"
    by (simp add: sample_key_map_def OK_def)
  have 3: "''quit'' \<noteq> []" by simp
  have 4: "\<forall>k. 0 < k \<and> k < length [(OK, 24), (OK, 3::int)] \<longrightarrow>
      sample_key_map (take k [(OK, 24), (OK, 3)]) = Some []"
  proof (intro allI impI)
    fix k :: nat assume "0 < k \<and> k < length [(OK, 24), (OK, 3::int)]"
    then have "k = 1" by simp
    then show "sample_key_map (take k [(OK, 24), (OK, 3)]) = Some []"
      by (simp add: sample_key_map_def OK_def)
  qed
  note inst = bound_chord_runs_command [OF 1 2 3 4, of sample_externals "(24, 80)" sample_state]
  have a: "run sample_externals sample_key_map (24, 80) [] sample_state [(OK, 24), (OK, 3)] =
      Inr ([], None)"
    using inst by (simp add: sample_externals_def del: run.simps)
  note pre = inst [THEN conjunct2, THEN conjunct1, rule_format]
  have b: "run sample_externals sample_key_map (24, 80) [] sample_state [(OK, 24)] =
      Inr ([(OK, 24)], Some sample_state)"
    using pre [of 1] by (simp del: run.simps)
  have c: "run sample_externals sample_key_map (24, 80) [] sample_state [] =
      Inr ([], Some sample_state)"
    using pre [of 0] by (simp del: run.simps)
  from a b c show ?thesis by (simp del: run.simps)
qed

text \<open>
  C4. The unbound case is not what the code does for every printable character. The key
  of the euro sign, code 8364 with the status \<open>OK\<close>, has no entry in the table and is
  the only key pending: line 239 hands it to \<^verbatim>\<open>std::iscntrl\<close> of \<^verbatim>\<open><cctype>\<close>, which
  is defined for the values of \<^verbatim>\<open>unsigned char\<close> and \<^verbatim>\<open>EOF\<close> only, so that the call
  has no defined result and the character is not inserted by any rule of the code. For
  a key below 256 the handler does what the claim says: the letter \<open>a\<close> is inserted.
\<close>

theorem handle_key_wide_character:
  "sample_key_map ([] @ [(OK, 8364)]) = None \<and>
   std_iscntrl sample_externals 8364 = Inl Bad_Ctype_Argument \<and>
   handle_key sample_externals sample_key_map (24, 80) [] sample_state OK 8364 =
     Inl Bad_Ctype_Argument \<and>
   handle_key sample_externals sample_key_map (24, 80) [] sample_state OK 97 =
     Inr ([], Some (sample_state
        \<lparr>buffer := sample_buffer\<lparr>content := [97] # content sample_buffer\<rparr>,
         messages := [\<lparr>content_of = ''adding character: a''\<rparr>]\<rparr>))"
  by (simp add: handle_key_def std_iscntrl_def and_then_def sample_key_map_def OK_def
      sample_externals_def sample_state_def)




section \<open>Properties of \<^verbatim>\<open>draw_text\<close>\<close>















text \<open>
  The table of the selection, for a selection whose columns lie in the rendered row
  \<open>str\<close>: the calls of \<^verbatim>\<open>draw_row\<close> in each of its cases. The cells written between
  \<^verbatim>\<open>attron\<close> and \<^verbatim>\<open>attroff\<close> are the highlighted ones.
\<close>

lemma draw_row_selection_table:
  fixes starts ends :: coord
  assumes "str = display_line_fill tw ln (col (scroll buf) + col') (col size') []"
  shows
    "(row starts = r \<and> row ends = r \<and>
        0 \<le> col starts \<and> col starts \<le> col ends \<and> col ends \<le> int (length str) \<longrightarrow>
        draw_row tw buf size' (Some (starts, ends)) col' r ln =
          Inr [Move r col',
               Addnwstr str (col starts),
               Attron selection_color,
               Addnwstr (drop (nat (col starts)) str) (col ends - col starts),
               Attroff selection_color,
               Addnwstr (drop (nat (col ends)) str) (int (length str) - col ends)]) \<and>
     (row starts = r \<and> row ends \<noteq> r \<and> 0 \<le> col starts \<and> col starts \<le> int (length str) \<longrightarrow>
        draw_row tw buf size' (Some (starts, ends)) col' r ln =
          Inr [Move r col',
               Addnwstr str (col starts),
               Attron selection_color,
               Addnwstr (drop (nat (col starts)) str) (int (length str) - col starts),
               Hline space (col size'),
               Attroff selection_color]) \<and>
     (row starts \<noteq> r \<and> row ends = r \<and> 0 \<le> col ends \<and> col ends \<le> int (length str) \<longrightarrow>
        draw_row tw buf size' (Some (starts, ends)) col' r ln =
          Inr [Move r col',
               Attron selection_color,
               Addnwstr str (col ends),
               Attroff selection_color,
               Addnwstr (drop (nat (col ends)) str) (int (length str) - col ends)]) \<and>
     (row starts < r \<and> r < row ends \<longrightarrow>
        draw_row tw buf size' (Some (starts, ends)) col' r ln =
          Inr [Move r col',
               Attron selection_color,
               Addwstr str,
               Hline space (col size'),
               Attroff selection_color]) \<and>
     (row starts \<noteq> r \<and> row ends \<noteq> r \<and> \<not> (row starts < r \<and> r < row ends) \<longrightarrow>
        draw_row tw buf size' (Some (starts, ends)) col' r ln = Inr [Move r col', Addwstr str]) \<and>
     draw_row tw buf size' None col' r ln = Inr [Move r col', Addwstr str]"
  by (auto simp: draw_row_def c_str_at_def and_then_def Let_def assms)

text \<open>
  C2. The table of the selection is not what the code does for every selection. In the
  sample buffer the first line has twelve characters, the editor is five columns wide
  and the text is scrolled five columns to the right, so the rendered row has five
  cells; the selection runs from column 7 to column 9 of that line. \<^verbatim>\<open>draw_text\<close>
  takes the selection's columns as offsets into the rendered row: the offset 7 is past
  the end of the row's string, and the call that should print the highlighted part
  reads outside the string.
\<close>

theorem draw_text_selection_past_row_end:
  "selection_on_screen selected_region sample_buffer =
     Some (\<lparr>row = 0, col = 7\<rparr>, \<lparr>row = 0, col = 9\<rparr>) \<and>
   display_line_fill tab_width [104, 101, 108, 108, 111, 32, 119, 111, 114, 108, 100, 33] 5 5 [] =
     [32, 119, 111, 114, 108] \<and>
   c_str_at [32, 119, 111, 114, 108] 7 = Inl Out_Of_Bounds \<and>
   draw_text tab_width selected_region (0, 0) sample_buffer (get_editor_size (5, 5)) =
     Inl Out_Of_Bounds"
proof -
  have s: "selection_on_screen selected_region sample_buffer =
     Some (\<lparr>row = 0, col = 7\<rparr>, \<lparr>row = 0, col = 9\<rparr>)"
    by (simp add: selection_on_screen_def selected_region_def sample_buffer_def coord_le_def)
  have r: "display_line_fill tab_width [104, 101, 108, 108, 111, 32, 119, 111, 114, 108, 100, 33]
      5 5 [] = [32, 119, 111, 114, 108]"
    by (simp add: display_line_fill_def tab_width_def tab_def wrap32_def)
  have c: "c_str_at [32, 119, 111, 114, 108] 7 = Inl Out_Of_Bounds"
    by (simp add: c_str_at_def)
  have v: "visible_lines sample_buffer (get_editor_size (5, 5)) = Inr (content sample_buffer)"
    by (simp add: visible_lines_def iter_range_def get_editor_size_def sample_buffer_def
        wrap32_def)
  have cont: "content sample_buffer =
      [[104, 101, 108, 108, 111, 32, 119, 111, 114, 108, 100, 33], [97, 9, 98], [99]]"
    by (simp add: sample_buffer_def)
  have dr: "draw_row tab_width sample_buffer (get_editor_size (5, 5))
      (Some (\<lparr>row = 0, col = 7\<rparr>, \<lparr>row = 0, col = 9\<rparr>)) 0 0
      [104, 101, 108, 108, 111, 32, 119, 111, 114, 108, 100, 33] = Inl Out_Of_Bounds"
    using r c by (simp add: draw_row_def get_editor_size_def sample_buffer_def and_then_def)
  have "draw_rows tab_width sample_buffer (get_editor_size (5, 5))
      (Some (\<lparr>row = 0, col = 7\<rparr>, \<lparr>row = 0, col = 9\<rparr>)) 0 0 (content sample_buffer) =
      Inl Out_Of_Bounds"
    unfolding cont by (simp add: dr and_then_def)
  then have "draw_text tab_width selected_region (0, 0) sample_buffer (get_editor_size (5, 5)) =
     Inl Out_Of_Bounds"
    by (simp add: draw_text_def v s and_then_def)
  with s r c show ?thesis by simp
qed

end
